theory Spec2Isabelle
  imports Complex_Main
begin

section \<open>JavaScript numbers\<close>

text \<open>
  The program computes with JavaScript numbers. A number is modelled as a real, or one of
  the three special values the guards of the program test for (\<open>isNaN\<close>,
  \<open>isFinite\<close>). The special values follow IEEE 754, and \<open>Math.PI\<close> is the double
  it is in the program, not the real number \<open>\<pi>\<close>. Arithmetic on finite values is
  exact: the rounding of a result to 53 bits, overflow to an infinity and the sign of
  zero are not modelled (a finite divisor equal to zero is taken as +0). The theorems
  below are therefore about equalities, guards and margins that do not rest on the last
  bits of a result; what the rounding of a double decides is not stated here.
\<close>

datatype number = NaN | PosInf | NegInf | Fin real

fun isNaN :: "number \<Rightarrow> bool" where
  "isNaN NaN = True"
| "isNaN _ = False"

fun isFinite :: "number \<Rightarrow> bool" where
  "isFinite (Fin _) = True"
| "isFinite _ = False"

fun isNegative :: "number \<Rightarrow> bool" where
  "isNegative (Fin v) = (v < 0)"
| "isNegative NegInf = True"
| "isNegative _ = False"

definition signedInf :: "bool \<Rightarrow> number" where
  "signedInf negative = (if negative then NegInf else PosInf)"

fun jsNeg :: "number \<Rightarrow> number" where
  "jsNeg (Fin v) = Fin (- v)"
| "jsNeg PosInf = NegInf"
| "jsNeg NegInf = PosInf"
| "jsNeg NaN = NaN"

fun jsAdd :: "number \<Rightarrow> number \<Rightarrow> number" where
  "jsAdd (Fin v) (Fin w) = Fin (v + w)"
| "jsAdd NaN _ = NaN"
| "jsAdd _ NaN = NaN"
| "jsAdd PosInf NegInf = NaN"
| "jsAdd NegInf PosInf = NaN"
| "jsAdd PosInf _ = PosInf"
| "jsAdd _ PosInf = PosInf"
| "jsAdd NegInf _ = NegInf"
| "jsAdd _ NegInf = NegInf"

fun jsMul :: "number \<Rightarrow> number \<Rightarrow> number" where
  "jsMul (Fin v) (Fin w) = Fin (v * w)"
| "jsMul NaN _ = NaN"
| "jsMul _ NaN = NaN"
| "jsMul u v =
     (if u = Fin 0 \<or> v = Fin 0 then NaN else signedInf (isNegative u \<noteq> isNegative v))"

fun jsDiv :: "number \<Rightarrow> number \<Rightarrow> number" where
  "jsDiv (Fin v) (Fin w) =
     (if w = 0 then (if v = 0 then NaN else signedInf (v < 0)) else Fin (v / w))"
| "jsDiv NaN _ = NaN"
| "jsDiv _ NaN = NaN"
| "jsDiv (Fin v) _ = Fin 0"
| "jsDiv u (Fin w) = signedInf (isNegative u \<noteq> (w < 0))"
| "jsDiv _ _ = NaN"

text \<open>The remainder operator \<open>%\<close>: the quotient is truncated towards zero.\<close>

definition truncToZero :: "real \<Rightarrow> int" where
  "truncToZero v = (if 0 \<le> v then \<lfloor>v\<rfloor> else \<lceil>v\<rceil>)"

fun jsRem :: "number \<Rightarrow> number \<Rightarrow> number" where
  "jsRem (Fin v) (Fin w) = (if w = 0 then NaN else Fin (v - w * of_int (truncToZero (v / w))))"
| "jsRem NaN _ = NaN"
| "jsRem _ NaN = NaN"
| "jsRem (Fin v) _ = Fin v"
| "jsRem _ _ = NaN"

fun jsGt :: "number \<Rightarrow> number \<Rightarrow> bool" where
  "jsGt (Fin v) (Fin w) = (w < v)"
| "jsGt NaN _ = False"
| "jsGt _ NaN = False"
| "jsGt PosInf PosInf = False"
| "jsGt PosInf _ = True"
| "jsGt NegInf _ = False"
| "jsGt _ NegInf = True"
| "jsGt _ PosInf = False"

instantiation number :: "{plus, minus, uminus, times, inverse}"
begin

definition plus_number :: "number \<Rightarrow> number \<Rightarrow> number" where
  "plus_number u v = jsAdd u v"

definition uminus_number :: "number \<Rightarrow> number" where
  "uminus_number u = jsNeg u"

definition minus_number :: "number \<Rightarrow> number \<Rightarrow> number" where
  "minus_number u v = jsAdd u (jsNeg v)"

definition times_number :: "number \<Rightarrow> number \<Rightarrow> number" where
  "times_number u v = jsMul u v"

definition divide_number :: "number \<Rightarrow> number \<Rightarrow> number" where
  "divide_number u v = jsDiv u v"

definition inverse_number :: "number \<Rightarrow> number" where
  "inverse_number u = jsDiv (Fin 1) u"

instance ..

end

subsection \<open>The \<open>Math\<close> object\<close>

text \<open>
  \<open>Math.PI\<close> is the double nearest to \<open>\<pi>\<close>, 3.141592653589793, which is
  \<open>884279719003555 / 2^48\<close> and lies below \<open>\<pi>\<close> by about \<open>1.2e-16\<close>.
\<close>

definition piDouble :: real where
  "piDouble = 884279719003555 / 281474976710656"

definition Math_PI :: number where
  "Math_PI = Fin piDouble"

fun Math_floor :: "number \<Rightarrow> number" where
  "Math_floor (Fin v) = Fin (of_int \<lfloor>v\<rfloor>)"
| "Math_floor u = u"

fun Math_abs :: "number \<Rightarrow> number" where
  "Math_abs (Fin v) = Fin \<bar>v\<bar>"
| "Math_abs NaN = NaN"
| "Math_abs _ = PosInf"

fun Math_sqrt :: "number \<Rightarrow> number" where
  "Math_sqrt (Fin v) = (if v < 0 then NaN else Fin (sqrt v))"
| "Math_sqrt PosInf = PosInf"
| "Math_sqrt _ = NaN"

fun Math_sin :: "number \<Rightarrow> number" where
  "Math_sin (Fin v) = Fin (sin v)"
| "Math_sin _ = NaN"

fun Math_cos :: "number \<Rightarrow> number" where
  "Math_cos (Fin v) = Fin (cos v)"
| "Math_cos _ = NaN"

text \<open>
  At an odd multiple of \<open>\<pi>/2\<close> the tangent has a pole; the model gives an infinity
  there (no floating-point number is such a point).
\<close>

fun Math_tan :: "number \<Rightarrow> number" where
  "Math_tan (Fin v) = (if cos v = 0 then signedInf (sin v < 0) else Fin (tan v))"
| "Math_tan _ = NaN"

fun Math_atan :: "number \<Rightarrow> number" where
  "Math_atan (Fin v) = Fin (arctan v)"
| "Math_atan PosInf = Fin (piDouble / 2)"
| "Math_atan NegInf = Fin (- (piDouble / 2))"
| "Math_atan NaN = NaN"

section \<open>Data model (\<open>types.ts\<close>)\<close>

record Planet =
  name :: string
  semiMajorAxis :: number
  eccentricity :: number
  inclination :: number
  longitudeOfAscendingNode :: number
  argumentOfPeriapsis :: number
  meanAnomaly :: number
  orbitalPeriod :: number
  radius :: number
  color :: string

text \<open>
  \<open>OrbitalPosition\<close> and \<open>THREE.Vector3\<close> are both triples of numbers with fields
  \<open>x\<close>, \<open>y\<close>, \<open>z\<close>.
\<close>

record OrbitalPosition =
  pos_x :: number
  pos_y :: number
  pos_z :: number

type_synonym Vector3 = OrbitalPosition

text \<open>
  A \<open>Date\<close> object, seen through the methods the program calls: its time value
  (\<open>NaN\<close> for an invalid date) and the local calendar fields.
\<close>

record Date =
  getTime :: number
  getFullYear :: number
  getMonth :: number
  getDate :: number
  getHours :: number
  getMinutes :: number
  getSeconds :: number

record SpaceTime =
  date :: Date
  julianDay :: number

definition origin :: OrbitalPosition where
  "origin = \<lparr>pos_x = Fin 0, pos_y = Fin 0, pos_z = Fin 0\<rparr>"

section \<open>\<open>orbitalMath.ts\<close>\<close>

definition degToRad :: "number \<Rightarrow> number" where
  "degToRad degrees =
     (let result = degrees * Math_PI / Fin 180
      in if isNaN result \<or> \<not> isFinite result then Fin 0 else result)"

text \<open>The Julian Day as computed before the final validity check.\<close>

definition computedJulianDay :: "Date \<Rightarrow> number" where
  "computedJulianDay d =
     (let a = Math_floor ((Fin 14 - (getMonth d + Fin 1)) / Fin 12);
          y = getFullYear d + Fin 4800 - a;
          m = (getMonth d + Fin 1) + Fin 12 * a - Fin 3;
          jd = getDate d + Math_floor ((Fin 153 * m + Fin 2) / Fin 5) + Fin 365 * y
               + Math_floor (y / Fin 4) - Math_floor (y / Fin 100)
               + Math_floor (y / Fin 400) - Fin 32045;
          hours = getHours d + getMinutes d / Fin 60 + getSeconds d / Fin 3600
      in jd + (hours / Fin 24 - Fin (1 / 2)))"

definition dateToJulianDay :: "Date \<Rightarrow> number" where
  "dateToJulianDay d =
     (if isNaN (getTime d) then Fin 2451545
      else let jd = computedJulianDay d
           in if isNaN jd \<or> \<not> isFinite jd then Fin 2451545 else jd)"

definition centuriesSinceJ2000 :: "number \<Rightarrow> number" where
  "centuriesSinceJ2000 jd = (jd - Fin 2451545) / Fin 36525"

text \<open>
  The Newton-Raphson loop of \<open>solveKepler\<close> has no iteration bound: a run that
  never leaves the loop is the value \<open>None\<close>. With doubles a step below half an ulp of
  \<open>E\<close> leaves \<open>E\<close> unchanged; the exact sum of this model does not describe that, so
  nothing is stated below about tolerances of the order of the rounding error.
\<close>

partial_function (option) solveKepler_loop ::
  "number \<Rightarrow> number \<Rightarrow> number \<Rightarrow> number \<Rightarrow> number option" where
  "solveKepler_loop M e tolerance E =
     (let delta = (M - E + e * Math_sin E) / (Fin 1 - e * Math_cos E);
          E' = E + delta
      in if jsGt (Math_abs delta) tolerance then solveKepler_loop M e tolerance E'
         else Some E')"

definition solveKepler :: "number \<Rightarrow> number \<Rightarrow> number \<Rightarrow> number option" where
  "solveKepler M e tolerance = solveKepler_loop M e tolerance M"

definition defaultTolerance :: number where
  "defaultTolerance = Fin (1 / 10 ^ 8)"

text \<open>
  \<open>calculatePlanetPosition\<close>. Its first statement logs
  \<open>spaceTime.date.toISOString()\<close>, which throws for an invalid date; the
  surrounding \<open>try\<close>/\<open>catch\<close> turns every exception into the origin.
\<close>

definition calculatePlanetPosition :: "Planet \<Rightarrow> SpaceTime \<Rightarrow> OrbitalPosition option" where
  "calculatePlanetPosition planet spaceTime =
     (if isNaN (getTime (date spaceTime)) then Some origin
      else if semiMajorAxis planet = Fin 0 then Some origin
      else if isNaN (julianDay spaceTime) then Some origin
      else
        let M0 = meanAnomaly planet
                 + Fin 360 * (julianDay spaceTime - Fin 2451545) / orbitalPeriod planet;
            M = jsRem M0 (Fin 360)
        in case solveKepler (degToRad M) (eccentricity planet) defaultTolerance of
             None \<Rightarrow> None
           | Some E \<Rightarrow>
              let r = semiMajorAxis planet * (Fin 1 - eccentricity planet * Math_cos E);
                  nu = Fin 2 * Math_atan
                         (Math_sqrt ((Fin 1 + eccentricity planet) / (Fin 1 - eccentricity planet))
                          * Math_tan (E / Fin 2));
                  argumentOfLatitude = degToRad (argumentOfPeriapsis planet) + nu;
                  sinOmega = Math_sin (degToRad (longitudeOfAscendingNode planet));
                  cosOmega = Math_cos (degToRad (longitudeOfAscendingNode planet));
                  sinI = Math_sin (degToRad (inclination planet));
                  cosI = Math_cos (degToRad (inclination planet));
                  sinU = Math_sin argumentOfLatitude;
                  cosU = Math_cos argumentOfLatitude;
                  x = r * (cosOmega * cosU - sinOmega * sinU * cosI);
                  y = r * (sinOmega * cosU + cosOmega * sinU * cosI);
                  z = r * sinU * sinI
              in if isNaN x \<or> isNaN y \<or> isNaN z
                    \<or> \<not> isFinite x \<or> \<not> isFinite y \<or> \<not> isFinite z
                 then Some origin
                 else Some \<lparr>pos_x = x, pos_y = y, pos_z = z\<rparr>)"

record OrbitalEllipse =
  ell_a :: number
  ell_b :: number
  ell_inclination :: number
  ell_longitudeOfNode :: number
  ell_argumentOfPeriapsis :: number

definition getOrbitalEllipse :: "Planet \<Rightarrow> OrbitalEllipse" where
  "getOrbitalEllipse planet =
     (let a = semiMajorAxis planet;
          b = a * Math_sqrt (Fin 1 - eccentricity planet * eccentricity planet)
      in \<lparr>ell_a = a, ell_b = b,
          ell_inclination = inclination planet * Math_PI / Fin 180,
          ell_longitudeOfNode = longitudeOfAscendingNode planet * Math_PI / Fin 180,
          ell_argumentOfPeriapsis = argumentOfPeriapsis planet * Math_PI / Fin 180\<rparr>)"

text \<open>
  The three rotations that the body of the loop of \<open>generateOrbitalPath\<close> applies to
  the point \<open>(x, y, 0)\<close> of the orbital plane.
\<close>

definition rotateToFrame :: "OrbitalEllipse \<Rightarrow> number \<Rightarrow> number \<Rightarrow> Vector3" where
  "rotateToFrame ellipse x y =
     (let cosW = Math_cos (ell_argumentOfPeriapsis ellipse);
          sinW = Math_sin (ell_argumentOfPeriapsis ellipse);
          xRotated = x * cosW - y * sinW;
          yRotated = x * sinW + y * cosW;
          cosI = Math_cos (ell_inclination ellipse);
          sinI = Math_sin (ell_inclination ellipse);
          xFinal = xRotated;
          yFinal = yRotated * cosI;
          zFinal = yRotated * sinI;
          cosOmega = Math_cos (ell_longitudeOfNode ellipse);
          sinOmega = Math_sin (ell_longitudeOfNode ellipse);
          xNode = xFinal * cosOmega - yFinal * sinOmega;
          yNode = xFinal * sinOmega + yFinal * cosOmega;
          zNode = zFinal
      in \<lparr>pos_x = xNode, pos_y = yNode, pos_z = zNode\<rparr>)"

text \<open>The sample of the path at a given angle: the body of the loop.\<close>

definition pathSample :: "OrbitalEllipse \<Rightarrow> number \<Rightarrow> Vector3" where
  "pathSample ellipse angle =
     rotateToFrame ellipse (ell_a ellipse * Math_cos angle) (ell_b ellipse * Math_sin angle)"

text \<open>
  The loop \<open>for (let i = 0; i <= segments; i++)\<close>, with the segment count an integer.
\<close>

function generateOrbitalPath_loop ::
  "OrbitalEllipse \<Rightarrow> int \<Rightarrow> int \<Rightarrow> Vector3 list \<Rightarrow> Vector3 list" where
  "generateOrbitalPath_loop ellipse segments i points =
     (if i \<le> segments
      then generateOrbitalPath_loop ellipse segments (i + 1)
             (points @ [pathSample ellipse
                          (Fin (of_int i) / Fin (of_int segments) * Fin 2 * Math_PI)])
      else points)"
  by pat_completeness auto
termination
  by (relation "measure (\<lambda>(ellipse, segments, i, points). nat (segments + 1 - i))") auto

declare generateOrbitalPath_loop.simps [simp del]

definition generateOrbitalPath :: "Planet \<Rightarrow> int \<Rightarrow> Vector3 list" where
  "generateOrbitalPath planet segments =
     generateOrbitalPath_loop (getOrbitalEllipse planet) segments 0 []"

definition calculatePerihelionPosition :: "Planet \<Rightarrow> Vector3" where
  "calculatePerihelionPosition planet =
     (let point_x = semiMajorAxis planet * (Fin 1 - eccentricity planet);
          point_y = Fin 0;
          ellipse = getOrbitalEllipse planet;
          cosW = Math_cos (ell_argumentOfPeriapsis ellipse);
          sinW = Math_sin (ell_argumentOfPeriapsis ellipse);
          x1 = point_x * cosW - point_y * sinW;
          cosI = Math_cos (ell_inclination ellipse);
          sinI = Math_sin (ell_inclination ellipse);
          y2 = point_y * cosI;
          z2 = point_y * sinI;
          cosOmega = Math_cos (ell_longitudeOfNode ellipse);
          sinOmega = Math_sin (ell_longitudeOfNode ellipse);
          xFinal = x1 * cosOmega - y2 * sinOmega;
          yFinal = x1 * sinOmega + y2 * cosOmega
      in \<lparr>pos_x = xFinal, pos_y = yFinal, pos_z = z2\<rparr>)"

section \<open>\<open>planetaryMath.ts\<close>\<close>

definition calculateRelativePosition ::
  "Planet \<Rightarrow> Planet \<Rightarrow> SpaceTime \<Rightarrow> OrbitalPosition option" where
  "calculateRelativePosition planetA planetB spaceTime =
     (case calculatePlanetPosition planetA spaceTime of
        None \<Rightarrow> None
      | Some posA \<Rightarrow>
          (case calculatePlanetPosition planetB spaceTime of
             None \<Rightarrow> None
           | Some posB \<Rightarrow>
               Some \<lparr>pos_x = pos_x posB - pos_x posA,
                     pos_y = pos_y posB - pos_y posA,
                     pos_z = pos_z posB - pos_z posA\<rparr>))"

definition negate :: "OrbitalPosition \<Rightarrow> OrbitalPosition" where
  "negate p = \<lparr>pos_x = - pos_x p, pos_y = - pos_y p, pos_z = - pos_z p\<rparr>"

section \<open>Concrete inputs\<close>

text \<open>
  The Sun as the tests and the time controls build it, and Mercury and the Earth from the
  catalogue.
\<close>

definition sun :: Planet where
  "sun = \<lparr>name = ''Sun'', semiMajorAxis = Fin 0, eccentricity = Fin 0, inclination = Fin 0,
     longitudeOfAscendingNode = Fin 0, argumentOfPeriapsis = Fin 0, meanAnomaly = Fin 0,
     orbitalPeriod = Fin 0, radius = Fin 696340, color = ''#FFD700''\<rparr>"

definition mercury :: Planet where
  "mercury = \<lparr>name = ''Mercury'', semiMajorAxis = Fin (8 / 10),
     eccentricity = Fin (205630 / 1000000), inclination = Fin (7005 / 1000),
     longitudeOfAscendingNode = Fin (48331 / 1000), argumentOfPeriapsis = Fin (29124 / 1000),
     meanAnomaly = Fin (174796 / 1000), orbitalPeriod = Fin (87969 / 1000),
     radius = Fin (24397 / 10), color = ''#8C7853''\<rparr>"


text \<open>A circular orbit of radius 1 in the reference plane, and one with a \<open>NaN\<close> inclination.\<close>

definition unitOrbit :: Planet where
  "unitOrbit = \<lparr>name = ''Unit'', semiMajorAxis = Fin 1, eccentricity = Fin 0,
     inclination = Fin 0, longitudeOfAscendingNode = Fin 0, argumentOfPeriapsis = Fin 0,
     meanAnomaly = Fin 0, orbitalPeriod = Fin 1, radius = Fin 1, color = ''#FFFFFF''\<rparr>"


text \<open>
  \<open>new Date('invalid')\<close>; local noon of 1 January 2000; and an object that passes
  \<open>instanceof Date\<close> with a valid time value whose \<open>getFullYear\<close> answers
  \<open>Infinity\<close> (only a subclass of \<open>Date\<close> can do so).
\<close>

definition invalidDate :: Date where
  "invalidDate = \<lparr>getTime = NaN, getFullYear = NaN, getMonth = NaN, getDate = NaN,
     getHours = NaN, getMinutes = NaN, getSeconds = NaN\<rparr>"

definition j2000Noon :: Date where
  "j2000Noon = \<lparr>getTime = Fin 946728000000, getFullYear = Fin 2000, getMonth = Fin 0,
     getDate = Fin 1, getHours = Fin 12, getMinutes = Fin 0, getSeconds = Fin 0\<rparr>"

definition farDate :: Date where
  "farDate = \<lparr>getTime = Fin 0, getFullYear = PosInf, getMonth = Fin 0, getDate = Fin 1,
     getHours = Fin 0, getMinutes = Fin 0, getSeconds = Fin 0\<rparr>"

definition j2000 :: SpaceTime where
  "j2000 = \<lparr>date = j2000Noon, julianDay = Fin 2451545\<rparr>"

section \<open>The Newton iteration on finite numbers\<close>

text \<open>
  On finite numbers with \<open>0 \<le> e < 1\<close> the body of the loop of \<open>solveKepler\<close> adds
  \<open>keplerDelta M e E\<close> to \<open>E\<close> (lemma \<open>solveKepler_loop_step\<close> below).
\<close>

definition keplerDelta :: "real \<Rightarrow> real \<Rightarrow> real \<Rightarrow> real" where
  "keplerDelta M e E = (M - E + e * sin E) / (1 - e * cos E)"

definition keplerStep :: "real \<Rightarrow> real \<Rightarrow> real \<Rightarrow> real" where
  "keplerStep M e E = E + keplerDelta M e E"

section \<open>Arithmetic on finite numbers\<close>

lemma Fin_add [simp]: "Fin v + Fin w = Fin (v + w)"
  by (simp add: plus_number_def)

lemma Fin_sub [simp]: "Fin v - Fin w = Fin (v - w)"
  by (simp add: minus_number_def)

lemma Fin_neg [simp]: "- Fin v = Fin (- v)"
  by (simp add: uminus_number_def)

lemma Fin_mul [simp]: "Fin v * Fin w = Fin (v * w)"
  by (simp add: times_number_def)

lemma Fin_div [simp]: "w \<noteq> 0 \<Longrightarrow> Fin v / Fin w = Fin (v / w)"
  by (simp add: divide_number_def)

lemma number_sub_swap: "(u::number) - v = - (v - u)"
  by (cases u; cases v) (simp_all add: minus_number_def uminus_number_def)

lemma degToRad_Fin: "degToRad (Fin v) = Fin (v * piDouble / 180)"
  by (simp add: degToRad_def Math_PI_def Let_def)

section \<open>The double \<open>Math.PI\<close>\<close>







section \<open>Julian Day\<close>

lemma dateToJulianDay_j2000Noon: "dateToJulianDay j2000Noon = Fin 2451545"
  by (simp add: dateToJulianDay_def computedJulianDay_def j2000Noon_def Let_def)

lemma farDate_not_finite: "computedJulianDay farDate = NaN"
  by (simp add: computedJulianDay_def farDate_def Let_def plus_number_def minus_number_def
      times_number_def divide_number_def signedInf_def)

text \<open>
  C7. For a date whose time value is \<open>NaN\<close> (an invalid date) \<open>dateToJulianDay\<close>
  returns exactly 2451545.0, and it returns exactly 2451545.0 whenever the Julian Day it
  computed is not a finite number.
\<close>

theorem julian_day_fallback:
  "(isNaN (getTime d) \<longrightarrow> dateToJulianDay d = Fin 2451545)
   \<and> (\<not> isFinite (computedJulianDay d) \<longrightarrow> dateToJulianDay d = Fin 2451545)"
  by (simp add: dateToJulianDay_def Let_def)

theorem julian_day_fallback_witness:
  "(isNaN (getTime invalidDate) \<and> dateToJulianDay invalidDate = Fin 2451545)
   \<and> (\<not> isFinite (computedJulianDay farDate) \<and> dateToJulianDay farDate = Fin 2451545)"
proof -
  have h1: "isNaN (getTime invalidDate)" by (simp add: invalidDate_def)
  have h2: "\<not> isFinite (computedJulianDay farDate)" by (simp add: farDate_not_finite)
  show ?thesis
    using h1 h2 julian_day_fallback [of invalidDate] julian_day_fallback [of farDate] by simp
qed

section \<open>Position of a body\<close>

lemma solveKepler_zero:
  "e \<noteq> 1 \<Longrightarrow> solveKepler (Fin 0) (Fin e) defaultTolerance = Some (Fin 0)"
  unfolding solveKepler_def
  by (subst solveKepler_loop.simps) (simp add: defaultTolerance_def Let_def divide_number_def)

lemma unitOrbit_j2000:
  "calculatePlanetPosition unitOrbit j2000 = Some \<lparr>pos_x = Fin 1, pos_y = Fin 0, pos_z = Fin 0\<rparr>"
  by (simp add: calculatePlanetPosition_def unitOrbit_def j2000_def j2000Noon_def Let_def
      truncToZero_def degToRad_Fin solveKepler_zero)

lemma sun_j2000: "calculatePlanetPosition sun j2000 = Some origin"
  by (simp add: calculatePlanetPosition_def sun_def)

text \<open>
  An instant whose date is invalid gives the origin, whatever its Julian Day and whatever
  the planet: the first statement of the function throws and the \<open>catch\<close> answers.
\<close>

lemma invalid_date_at_origin:
  "isNaN (getTime (date spaceTime)) \<Longrightarrow> calculatePlanetPosition planet spaceTime = Some origin"
  by (simp add: calculatePlanetPosition_def)

text \<open>
  C4. A body whose semi-major axis is 0 is at the origin at every instant, whatever its
  other elements and whatever the instant (a non-finite Julian Day and an invalid date
  included).
\<close>

theorem central_body_at_origin:
  "semiMajorAxis planet = Fin 0 \<Longrightarrow> calculatePlanetPosition planet spaceTime = Some origin"
  by (simp add: calculatePlanetPosition_def)

theorem central_body_at_origin_witness:
  "semiMajorAxis sun = Fin 0
   \<and> calculatePlanetPosition sun \<lparr>date = j2000Noon, julianDay = PosInf\<rparr> = Some origin"
proof -
  have h: "semiMajorAxis sun = Fin 0" by (simp add: sun_def)
  show ?thesis using h central_body_at_origin [OF h] by simp
qed

section \<open>Relative position\<close>

text \<open>
  C8. When both positions are returned, \<open>calculateRelativePosition A B t\<close> is the
  componentwise difference position(B) - position(A); and in every case it is the
  componentwise negation of \<open>calculateRelativePosition B A t\<close> (neither returns when
  one of the two positions does not).
\<close>

theorem relative_position_antisymmetric:
  "(\<forall>posA posB. calculatePlanetPosition planetA t = Some posA
        \<and> calculatePlanetPosition planetB t = Some posB
      \<longrightarrow> calculateRelativePosition planetA planetB t
          = Some \<lparr>pos_x = pos_x posB - pos_x posA, pos_y = pos_y posB - pos_y posA,
                  pos_z = pos_z posB - pos_z posA\<rparr>)
   \<and> calculateRelativePosition planetA planetB t
       = map_option negate (calculateRelativePosition planetB planetA t)"
  by (auto simp add: calculateRelativePosition_def negate_def number_sub_swap [symmetric]
      split: option.splits)

theorem relative_position_antisymmetric_witness:
  "calculatePlanetPosition sun j2000 = Some origin
   \<and> calculatePlanetPosition unitOrbit j2000
       = Some \<lparr>pos_x = Fin 1, pos_y = Fin 0, pos_z = Fin 0\<rparr>
   \<and> calculateRelativePosition sun unitOrbit j2000
       = Some \<lparr>pos_x = Fin 1, pos_y = Fin 0, pos_z = Fin 0\<rparr>
   \<and> calculateRelativePosition unitOrbit sun j2000
       = Some \<lparr>pos_x = Fin (- 1), pos_y = Fin 0, pos_z = Fin 0\<rparr>"
  using relative_position_antisymmetric [of sun j2000 unitOrbit]
    relative_position_antisymmetric [of unitOrbit j2000 sun] sun_j2000 unitOrbit_j2000
  by (simp add: origin_def)

section \<open>Orbital path\<close>

lemma generateOrbitalPath_loop_eq:
  "generateOrbitalPath_loop ellipse segments i points =
     points @ map (\<lambda>k. pathSample ellipse
                          (Fin (of_int k) / Fin (of_int segments) * Fin 2 * Math_PI))
                  [i..segments]"
proof (induction ellipse segments i points rule: generateOrbitalPath_loop.induct)
  case (1 ellipse segments i points)
  show ?case
  proof (cases "i \<le> segments")
    case True
    then show ?thesis
      using "1.IH" by (subst generateOrbitalPath_loop.simps) (simp add: upto_rec1 [of i])
  next
    case False
    then show ?thesis by (subst generateOrbitalPath_loop.simps) simp
  qed
qed

lemma first_angle: "N \<noteq> 0 \<Longrightarrow> Fin (of_int 0) / Fin (of_int N) * Fin 2 * Math_PI = Fin 0"
  by (simp add: Math_PI_def)


lemma generateOrbitalPath_eq:
  "generateOrbitalPath planet N =
     map (\<lambda>k. pathSample (getOrbitalEllipse planet)
                 (Fin (of_int k) / Fin (of_int N) * Fin 2 * Math_PI)) [0..N]"
  by (simp add: generateOrbitalPath_def generateOrbitalPath_loop_eq)


lemma generateOrbitalPath_hd:
  assumes "1 \<le> N"
  shows "hd (generateOrbitalPath planet N) = pathSample (getOrbitalEllipse planet) (Fin 0)"
proof -
  have "[0..N] = 0 # [1..N]" using assms by (simp add: upto_rec1 [of 0 N])
  then show ?thesis
    using assms first_angle [of N] by (simp add: generateOrbitalPath_eq)
qed






section \<open>Perihelion\<close>

lemma sin_deg_pos:
  assumes "0 < d" "d < 90"
  shows "0 < sin (d * piDouble / 180)"
proof (rule sin_gt_zero)
  have p: "0 < piDouble" "piDouble < 4" by (simp_all add: piDouble_def)
  show "0 < d * piDouble / 180" using assms p by simp
  have "d * piDouble < 90 * 4" using assms p by (intro mult_strict_mono) simp_all
  then show "d * piDouble / 180 < pi" using pi_ge_two by simp
qed

lemma rotateToFrame_z:
  assumes "ell_argumentOfPeriapsis ellipse = Fin w" and "ell_inclination ellipse = Fin i"
  shows "pos_z (rotateToFrame ellipse (Fin v) (Fin 0)) = Fin (v * sin w * sin i)"
  using assms by (cases "ell_longitudeOfNode ellipse") (simp_all add: rotateToFrame_def Let_def)

lemma pathSample_zero:
  "ell_a ellipse = Fin a \<Longrightarrow> isFinite (ell_b ellipse) \<Longrightarrow>
     pathSample ellipse (Fin 0) = rotateToFrame ellipse (Fin a) (Fin 0)"
  by (cases "ell_b ellipse") (simp_all add: pathSample_def)

lemma mercury_rotation_z_nonzero:
  assumes "0 < v"
  shows "Fin (v * sin (29124 / 1000 * piDouble / 180) * sin (7005 / 1000 * piDouble / 180))
         \<noteq> Fin 0"
proof -
  have "0 < v * sin (29124 / 1000 * piDouble / 180) * sin (7005 / 1000 * piDouble / 180)"
    using assms by (intro mult_pos_pos sin_deg_pos) simp_all
  then show ?thesis by (metis number.inject less_irrefl)
qed

lemma mercury_ellipse_b: "isFinite (ell_b (getOrbitalEllipse mercury))"
  by (simp add: getOrbitalEllipse_def mercury_def Let_def)

lemma mercury_ellipse:
  "ell_a (getOrbitalEllipse mercury) = Fin (8 / 10)"
  "ell_argumentOfPeriapsis (getOrbitalEllipse mercury) = Fin (29124 / 1000 * piDouble / 180)"
  "ell_inclination (getOrbitalEllipse mercury) = Fin (7005 / 1000 * piDouble / 180)"
  by (simp_all add: getOrbitalEllipse_def mercury_def Let_def Math_PI_def)

text \<open>
  C1. The claim is that \<open>calculatePerihelionPosition\<close> is the point
  \<open>(a (1 - e), 0, 0)\<close> taken through the three rotations of \<open>generateOrbitalPath\<close>,
  and so the sample of the path at angle 0. For Mercury it is neither: the function
  rotates about the first axis only (it never computes the rotated \<open>y\<close>), so its
  \<open>z\<close> is 0, while the rotated point and the first sample of the path have a
  non-zero \<open>z\<close>.
\<close>

theorem perihelion_misses_rotation:
  "pos_z (calculatePerihelionPosition mercury) = Fin 0
   \<and> pos_z (rotateToFrame (getOrbitalEllipse mercury)
              (semiMajorAxis mercury * (Fin 1 - eccentricity mercury)) (Fin 0)) \<noteq> Fin 0
   \<and> pos_z (hd (generateOrbitalPath mercury 64)) \<noteq> Fin 0"
proof -
  have z: "pos_z (calculatePerihelionPosition mercury) = Fin 0"
    by (simp add: calculatePerihelionPosition_def getOrbitalEllipse_def mercury_def Let_def
        Math_PI_def)
  have q: "semiMajorAxis mercury * (Fin 1 - eccentricity mercury)
           = Fin (8 / 10 * (1 - 205630 / 1000000))"
    by (simp add: mercury_def)
  have r: "pos_z (rotateToFrame (getOrbitalEllipse mercury)
              (semiMajorAxis mercury * (Fin 1 - eccentricity mercury)) (Fin 0)) \<noteq> Fin 0"
    unfolding q rotateToFrame_z [OF mercury_ellipse(2,3)]
    by (rule mercury_rotation_z_nonzero) simp
  have "hd (generateOrbitalPath mercury 64) = pathSample (getOrbitalEllipse mercury) (Fin 0)"
    by (rule generateOrbitalPath_hd) simp
  then have h: "pos_z (hd (generateOrbitalPath mercury 64))
             = pos_z (rotateToFrame (getOrbitalEllipse mercury) (Fin (8 / 10)) (Fin 0))"
    by (simp only: pathSample_zero [OF mercury_ellipse(1) mercury_ellipse_b])
  have p: "pos_z (hd (generateOrbitalPath mercury 64)) \<noteq> Fin 0"
    unfolding h rotateToFrame_z [OF mercury_ellipse(2,3)]
    by (rule mercury_rotation_z_nonzero) simp
  from z r p show ?thesis by simp
qed




section \<open>The Kepler solver\<close>

subsection \<open>Bounds on sine and cosine\<close>

lemma sin_minus_self_bound: "\<bar>sin d - d\<bar> \<le> d\<^sup>2 / 2" for d :: real
proof -
  have s: "(\<Sum>m<2. sin_coeff m * d ^ m) = d"
    by (simp add: sin_coeff_def numeral_2_eq_2)
  show ?thesis
    using Maclaurin_sin_bound [of d 2] unfolding s by (simp add: fact_numeral)
qed

lemma cos_minus_one_bound: "\<bar>cos d - 1\<bar> \<le> d\<^sup>2 / 2" for d :: real
proof -
  define s where "s = sin (d / 2)"
  have c: "cos d = 1 - 2 * s\<^sup>2"
    using cos_double_sin [of "d / 2"] by (simp add: s_def)
  have "\<bar>s\<bar> \<le> \<bar>d / 2\<bar>" unfolding s_def by (rule abs_sin_x_le_abs_x)
  then have "s\<^sup>2 \<le> (d / 2)\<^sup>2"
    by (simp only: abs_le_square_iff)
  then have "s\<^sup>2 \<le> d\<^sup>2 / 4" by (simp add: power_divide)
  moreover have "0 \<le> s\<^sup>2" by simp
  ultimately show ?thesis unfolding c by linarith
qed

lemma sin_cubic_lower: "0 \<le> x \<Longrightarrow> x - x ^ 3 / 6 \<le> sin x" for x :: real
proof -
  assume x: "0 \<le> x"
  have s: "(\<Sum>m<3. sin_coeff m * x ^ m) = x"
    by (simp add: sin_coeff_def numeral_3_eq_3)
  have "\<bar>sin x - x\<bar> \<le> inverse (fact 3) * \<bar>x\<bar> ^ 3"
    using Maclaurin_sin_bound [of x 3] unfolding s .
  then have "\<bar>sin x - x\<bar> \<le> x ^ 3 / 6"
    using x by (simp add: fact_numeral)
  then show ?thesis by linarith
qed

lemma sin_taylor_bound: "\<bar>sin (x + d) - sin x - d * cos x\<bar> \<le> d\<^sup>2" for x d :: real
proof -
  have e: "sin (x + d) - sin x - d * cos x = sin x * (cos d - 1) + cos x * (sin d - d)"
    unfolding sin_add by (simp only: algebra_simps)
  have "\<bar>sin x * (cos d - 1) + cos x * (sin d - d)\<bar>
        \<le> \<bar>sin x * (cos d - 1)\<bar> + \<bar>cos x * (sin d - d)\<bar>"
    by (rule abs_triangle_ineq)
  also have "\<dots> = \<bar>sin x\<bar> * \<bar>cos d - 1\<bar> + \<bar>cos x\<bar> * \<bar>sin d - d\<bar>"
    by (simp only: abs_mult)
  also have "\<dots> \<le> 1 * (d\<^sup>2 / 2) + 1 * (d\<^sup>2 / 2)"
  proof (rule add_mono)
    show "\<bar>sin x\<bar> * \<bar>cos d - 1\<bar> \<le> 1 * (d\<^sup>2 / 2)"
      by (rule mult_mono [OF abs_sin_le_one cos_minus_one_bound]) simp_all
    show "\<bar>cos x\<bar> * \<bar>sin d - d\<bar> \<le> 1 * (d\<^sup>2 / 2)"
      by (rule mult_mono [OF abs_cos_le_one sin_minus_self_bound]) simp_all
  qed
  finally show ?thesis unfolding e by simp
qed

subsection \<open>One step of the iteration\<close>

text \<open>After one step the residual of Kepler's equation is at most \<open>e * delta^2\<close>.\<close>

lemma newton_step_residual:
  fixes M e E :: real
  assumes e: "0 \<le> e" "e < 1"
    and d: "d = (M - E + e * sin E) / (1 - e * cos E)"
  shows "\<bar>(E + d) - e * sin (E + d) - M\<bar> \<le> e * d\<^sup>2"
proof -
  have "e * cos E \<le> e * 1" using e by (intro mult_left_mono) simp_all
  then have pos: "0 < 1 - e * cos E" using e by simp
  then have "d * (1 - e * cos E) = M - E + e * sin E"
    unfolding d by simp
  then have "(E + d) - e * sin (E + d) - M = - e * (sin (E + d) - sin E - d * cos E)"
    by (simp only: algebra_simps)
  then have "\<bar>(E + d) - e * sin (E + d) - M\<bar> = e * \<bar>sin (E + d) - sin E - d * cos E\<bar>"
    using e by (simp add: abs_mult)
  also have "\<dots> \<le> e * d\<^sup>2"
    using e by (intro mult_left_mono sin_taylor_bound) simp_all
  finally show ?thesis .
qed

lemma kepler_denominator_pos: "0 \<le> e \<Longrightarrow> e < 1 \<Longrightarrow> 0 < 1 - e * cos E" for e E :: real
proof -
  assume e: "0 \<le> e" "e < 1"
  have "e * cos E \<le> e * 1" using e by (intro mult_left_mono) simp_all
  then show ?thesis using e by simp
qed

text \<open>The body of the loop on finite numbers.\<close>

lemma solveKepler_loop_Fin:
  assumes "0 \<le> e" "e < 1"
  shows "solveKepler_loop (Fin M) (Fin e) (Fin tol) (Fin E) =
     (if tol < \<bar>(M - E + e * sin E) / (1 - e * cos E)\<bar>
      then solveKepler_loop (Fin M) (Fin e) (Fin tol)
             (Fin (E + (M - E + e * sin E) / (1 - e * cos E)))
      else Some (Fin (E + (M - E + e * sin E) / (1 - e * cos E))))"
  using kepler_denominator_pos [OF assms, of E]
  by (subst solveKepler_loop.simps) (simp add: Let_def)

lemma solveKepler_loop_residual:
  assumes run: "solveKepler_loop M' e' tol' E' = Some y"
  shows "\<forall>M e tol E. M' = Fin M \<and> e' = Fin e \<and> tol' = Fin tol \<and> E' = Fin E
           \<and> 0 \<le> e \<and> e < 1 \<and> 0 \<le> tol
         \<longrightarrow> (\<exists>Er. y = Fin Er \<and> \<bar>Er - e * sin Er - M\<bar> \<le> e * tol\<^sup>2)"
  apply (rule solveKepler_loop.raw_induct [where P = "\<lambda>M' e' tol' E' y.
           \<forall>M e tol E. M' = Fin M \<and> e' = Fin e \<and> tol' = Fin tol \<and> E' = Fin E
             \<and> 0 \<le> e \<and> e < 1 \<and> 0 \<le> tol
           \<longrightarrow> (\<exists>Er. y = Fin Er \<and> \<bar>Er - e * sin Er - M\<bar> \<le> e * tol\<^sup>2)", OF _ run])
  subgoal premises prems for f M1 e1 tol1 E1 y1
  proof (intro allI impI, elim conjE)
    fix M e tol E
    assume eqs: "M1 = Fin M" "e1 = Fin e" "tol1 = Fin tol" "E1 = Fin E"
      and e: "0 \<le> e" "e < 1" and tol: "0 \<le> tol"
    define d where "d = (M - E + e * sin E) / (1 - e * cos E)"
    have pos: "0 < 1 - e * cos E" by (rule kepler_denominator_pos [OF e])
    from prems(2) have body:
      "(if tol < \<bar>d\<bar> then f (Fin M) (Fin e) (Fin tol) (Fin (E + d)) else Some (Fin (E + d)))
        = Some y1"
      using pos unfolding eqs d_def by (simp add: Let_def split: if_splits)
    show "\<exists>Er. y1 = Fin Er \<and> \<bar>Er - e * sin Er - M\<bar> \<le> e * tol\<^sup>2"
    proof (cases "tol < \<bar>d\<bar>")
      case True
      with body have "f (Fin M) (Fin e) (Fin tol) (Fin (E + d)) = Some y1" by simp
      from prems(1) [OF this, rule_format, of M e tol "E + d"] e tol show ?thesis by simp
    next
      case False
      with body have y: "y1 = Fin (E + d)" by simp
      have r: "\<bar>(E + d) - e * sin (E + d) - M\<bar> \<le> e * d\<^sup>2"
        by (rule newton_step_residual [OF e d_def])
      have "\<bar>d\<bar> \<le> \<bar>tol\<bar>" using False tol by simp
      then have "d\<^sup>2 \<le> tol\<^sup>2" by (simp only: abs_le_square_iff)
      then have "e * d\<^sup>2 \<le> e * tol\<^sup>2" using e by (intro mult_left_mono)
      with r have "\<bar>(E + d) - e * sin (E + d) - M\<bar> \<le> e * tol\<^sup>2" by linarith
      with y show ?thesis by blast
    qed
  qed
  done

lemma loop_body_Fin:
  assumes "0 \<le> e" "e < 1"
    and "(let delta = (Fin M - Fin E + Fin e * Math_sin (Fin E))
                      / (Fin 1 - Fin e * Math_cos (Fin E));
              E' = Fin E + delta
          in if jsGt (Math_abs delta) (Fin tol) then f (Fin M) (Fin e) (Fin tol) E'
             else Some E') = Some y"
  shows "(if tol < \<bar>(M - E + e * sin E) / (1 - e * cos E)\<bar>
          then f (Fin M) (Fin e) (Fin tol) (Fin (E + (M - E + e * sin E) / (1 - e * cos E)))
          else Some (Fin (E + (M - E + e * sin E) / (1 - e * cos E)))) = Some y"
  using assms(3) kepler_denominator_pos [OF assms(1,2), of E]
  by (simp add: Let_def split: if_splits)

lemma solveKepler_loop_step:
  assumes "0 \<le> e" "e < 1"
  shows "solveKepler_loop (Fin M) (Fin e) (Fin tol) (Fin E) =
     (if tol < \<bar>keplerDelta M e E\<bar>
      then solveKepler_loop (Fin M) (Fin e) (Fin tol) (Fin (keplerStep M e E))
      else Some (Fin (keplerStep M e E)))"
  unfolding keplerStep_def keplerDelta_def by (rule solveKepler_loop_Fin [OF assms])

lemma loop_returns_when_delta_small:
  assumes e: "0 \<le> e" "e < 1"
  shows "\<bar>keplerDelta M e ((keplerStep M e ^^ n) E)\<bar> \<le> tol
         \<Longrightarrow> \<exists>y. solveKepler_loop (Fin M) (Fin e) (Fin tol) (Fin E) = Some y"
proof (induction n arbitrary: E)
  case 0
  then show ?case by (subst solveKepler_loop_step [OF e]) simp
next
  case (Suc n)
  show ?case
  proof (cases "tol < \<bar>keplerDelta M e E\<bar>")
    case True
    from Suc.prems have "\<bar>keplerDelta M e ((keplerStep M e ^^ n) (keplerStep M e E))\<bar> \<le> tol"
      by (simp add: funpow_swap1)
    from Suc.IH [OF this] True show ?thesis
      by (subst solveKepler_loop_step [OF e]) simp
  next
    case False
    then show ?thesis by (subst solveKepler_loop_step [OF e]) simp
  qed
qed

subsection \<open>Convergence from the initial guess\<close>

lemma sin_concave:
  fixes x y :: real
  assumes x: "0 \<le> x" "x \<le> pi" and y: "0 \<le> y" "y \<le> pi"
  shows "sin y \<le> sin x + cos x * (y - x)"
proof -
  define h where "h t = sin x + cos x * (t - x) - sin t" for t
  have d: "(h has_real_derivative cos x - cos t) (at t)" for t
    unfolding h_def by (auto intro!: derivative_eq_intros)
  have "h x \<le> h y"
  proof (cases "x \<le> y")
    case True
    show ?thesis
    proof (rule DERIV_nonneg_imp_nondecreasing [OF True])
      fix t assume t: "x \<le> t" "t \<le> y"
      have "cos t \<le> cos x" by (rule cos_monotone_0_pi_le) (use x y t in simp_all)
      then show "\<exists>v. (h has_real_derivative v) (at t) \<and> 0 \<le> v"
        using d [of t] by (intro exI [of _ "cos x - cos t"]) simp
    qed
  next
    case False
    then have le: "y \<le> x" by simp
    show ?thesis
    proof (rule DERIV_nonpos_imp_nonincreasing [OF le])
      fix t assume t: "y \<le> t" "t \<le> x"
      have "cos x \<le> cos t" by (rule cos_monotone_0_pi_le) (use x y t in simp_all)
      then show "\<exists>v. (h has_real_derivative v) (at t) \<and> v \<le> 0"
        using d [of t] by (intro exI [of _ "cos x - cos t"]) simp
    qed
  qed
  then show ?thesis by (simp add: h_def)
qed

lemma arg_cos_le_sin: "0 \<le> E \<Longrightarrow> E \<le> pi \<Longrightarrow> E * cos E \<le> sin E" for E :: real
  using sin_concave [of E 0] by (simp add: algebra_simps)

text \<open>
  A step that stays in \<open>[0, pi]\<close> lands where the residual \<open>E - e sin E - M\<close> is not
  negative: the sine is concave there.
\<close>

lemma newton_overshoot:
  fixes M e E :: real
  assumes e: "0 \<le> e" "e < 1"
    and E: "0 \<le> E" "E \<le> pi"
    and E': "0 \<le> keplerStep M e E" "keplerStep M e E \<le> pi"
  shows "0 \<le> keplerStep M e E - e * sin (keplerStep M e E) - M"
proof -
  define d where "d = keplerDelta M e E"
  have s: "keplerStep M e E = E + d" by (simp add: keplerStep_def d_def)
  have pos: "0 < 1 - e * cos E" by (rule kepler_denominator_pos [OF e])
  then have dD: "d * (1 - e * cos E) = M - E + e * sin E"
    by (simp add: d_def keplerDelta_def)
  have "sin (E + d) \<le> sin E + cos E * ((E + d) - E)"
    by (rule sin_concave) (use E E' s in simp_all)
  then have "e * sin (E + d) \<le> e * (sin E + cos E * d)"
    using e by (intro mult_left_mono) simp_all
  then have "E + d - e * (sin E + cos E * d) - M \<le> E + d - e * sin (E + d) - M"
    by simp
  moreover have "E + d - e * (sin E + cos E * d) - M = d * (1 - e * cos E) - (M - E + e * sin E)"
    by (simp add: algebra_simps)
  ultimately show ?thesis unfolding s dD by simp
qed

text \<open>From a point of \<open>[0, pi]\<close> with a non-negative residual the step goes down and stays there.\<close>

lemma newton_descends:
  fixes M e E :: real
  assumes e: "0 \<le> e" "e < 1" and M: "0 \<le> M"
    and E: "0 \<le> E" "E \<le> pi" and g: "0 \<le> E - e * sin E - M"
  shows "keplerDelta M e E \<le> 0" "0 \<le> keplerStep M e E" "keplerStep M e E \<le> pi"
    "0 \<le> keplerStep M e E - e * sin (keplerStep M e E) - M"
proof -
  define d where "d = keplerDelta M e E"
  have pos: "0 < 1 - e * cos E" by (rule kepler_denominator_pos [OF e])
  then have dD: "d * (1 - e * cos E) = M - E + e * sin E"
    by (simp add: d_def keplerDelta_def)
  have "M - E + e * sin E \<le> 0" using g by simp
  then show d0: "keplerDelta M e E \<le> 0"
    using pos by (simp add: keplerDelta_def divide_le_0_iff)
  have "e * (E * cos E) \<le> e * sin E"
    using e by (intro mult_left_mono arg_cos_le_sin E) simp_all
  then have "0 \<le> E * (1 - e * cos E) + (M - E + e * sin E)"
    using M by (simp add: algebra_simps)
  then have "0 \<le> (E + d) * (1 - e * cos E)"
    unfolding dD [symmetric] by (simp add: algebra_simps)
  then have "0 \<le> E + d" using pos by (simp add: zero_le_mult_iff)
  then show lo: "0 \<le> keplerStep M e E" by (simp add: keplerStep_def d_def)
  show hi: "keplerStep M e E \<le> pi" using d0 E by (simp add: keplerStep_def)
  show "0 \<le> keplerStep M e E - e * sin (keplerStep M e E) - M"
    by (rule newton_overshoot [OF e E lo hi])
qed

lemma descent_reaches_tolerance:
  fixes M e tol :: real
  assumes e: "0 \<le> e" "e < 1" and M: "0 \<le> M" and tol: "0 < tol"
  shows "0 \<le> E \<Longrightarrow> E \<le> pi \<Longrightarrow> 0 \<le> E - e * sin E - M \<Longrightarrow> E \<le> real k * tol
         \<Longrightarrow> \<exists>n. \<bar>keplerDelta M e ((keplerStep M e ^^ n) E)\<bar> \<le> tol"
proof (induction k arbitrary: E)
  case 0
  note st = newton_descends [OF e M "0.prems"(1,2,3)]
  have "\<bar>keplerDelta M e E\<bar> \<le> tol"
  proof (rule ccontr)
    assume "\<not> \<bar>keplerDelta M e E\<bar> \<le> tol"
    with st(1) tol have "keplerDelta M e E < 0" by simp
    with "0.prems"(4) have "keplerStep M e E < 0" by (simp add: keplerStep_def)
    with st(2) show False by simp
  qed
  then have "\<bar>keplerDelta M e ((keplerStep M e ^^ 0) E)\<bar> \<le> tol" by simp
  then show ?case by blast
next
  case (Suc k)
  note st = newton_descends [OF e M Suc.prems(1,2,3)]
  show ?case
  proof (cases "\<bar>keplerDelta M e E\<bar> \<le> tol")
    case True
    then have "\<bar>keplerDelta M e ((keplerStep M e ^^ 0) E)\<bar> \<le> tol" by simp
    then show ?thesis by blast
  next
    case False
    with st(1) have "keplerDelta M e E < - tol" by simp
    then have "keplerStep M e E < E - tol" by (simp add: keplerStep_def)
    also have "\<dots> \<le> real k * tol" using Suc.prems(4) by (simp add: algebra_simps)
    finally have "keplerStep M e E \<le> real k * tol" by simp
    from Suc.IH [OF st(2,3,4) this]
    obtain n where "\<bar>keplerDelta M e ((keplerStep M e ^^ n) (keplerStep M e E))\<bar> \<le> tol"
      by blast
    then have "\<bar>keplerDelta M e ((keplerStep M e ^^ Suc n) E)\<bar> \<le> tol"
      by (simp add: funpow_swap1)
    then show ?thesis by blast
  qed
qed

text \<open>The first step, from \<open>E = M\<close> in \<open>[0, pi]\<close>, does not pass \<open>pi\<close> when \<open>e \<le> 0.9\<close>.\<close>

lemma first_step_algebra:
  fixes e s c u :: real
  assumes e: "0 \<le> e" "e \<le> 9 / 10"
    and s: "0 \<le> s" "s \<le> 1" "s \<le> u"
    and c: "0 \<le> c" "c \<le> 1" "1 - u\<^sup>2 / 2 \<le> c"
    and u: "0 \<le> u"
  shows "e * s * c \<le> u * (1 - e + 2 * e * c\<^sup>2)"
proof -
  have D: "0 \<le> 1 - e + 2 * e * c\<^sup>2" using e by simp
  show ?thesis
  proof (cases "1 / 3 \<le> c")
    case True
    have "0 \<le> (c - 1 / 3) * (2 * c - 1 / 3)" using True by (intro mult_nonneg_nonneg) simp_all
    then have q: "1 + c - 2 * c\<^sup>2 \<le> 10 / 9" by (simp add: power2_eq_square algebra_simps)
    have "e * (1 + c - 2 * c\<^sup>2) \<le> e * (10 / 9)" using e q by (intro mult_left_mono) simp_all
    also have "\<dots> \<le> 1" using e by simp
    finally have "e * c \<le> 1 - e + 2 * e * c\<^sup>2" by (simp add: algebra_simps)
    then have "u * (e * c) \<le> u * (1 - e + 2 * e * c\<^sup>2)" using u by (intro mult_left_mono)
    moreover have "s * (e * c) \<le> u * (e * c)" using s e c by (intro mult_right_mono) simp_all
    ultimately show ?thesis by (simp add: algebra_simps)
  next
    case False
    then have "u\<^sup>2 > 4 / 3" using c(3) by simp
    have u11: "11 / 10 \<le> u"
    proof (rule ccontr)
      assume "\<not> 11 / 10 \<le> u"
      then have "u * u \<le> (11 / 10) * (11 / 10)" using u by (intro mult_mono) simp_all
      with \<open>u\<^sup>2 > 4 / 3\<close> show False by (simp add: power2_eq_square)
    qed
    have "0 \<le> (c - 5 / 22)\<^sup>2" by simp
    then have q: "11 / 10 + c - 22 / 10 * c\<^sup>2 \<le> 267 / 220"
      by (simp add: power2_eq_square algebra_simps)
    have "e * (11 / 10 + c - 22 / 10 * c\<^sup>2) \<le> e * (267 / 220)"
      using e q by (intro mult_left_mono) simp_all
    also have "\<dots> \<le> 11 / 10" using e by simp
    finally have "e * c \<le> 11 / 10 * (1 - e + 2 * e * c\<^sup>2)" by (simp add: algebra_simps)
    also have "\<dots> \<le> u * (1 - e + 2 * e * c\<^sup>2)" using u11 D by (intro mult_right_mono)
    finally have "e * c \<le> u * (1 - e + 2 * e * c\<^sup>2)" .
    moreover have "s * (e * c) \<le> 1 * (e * c)" using s e c by (intro mult_right_mono) simp_all
    ultimately show ?thesis by (simp add: algebra_simps)
  qed
qed

lemma first_step_below_pi:
  fixes M e :: real
  assumes e: "0 \<le> e" "e \<le> 9 / 10" and M: "0 \<le> M" "M \<le> pi"
  shows "0 \<le> keplerDelta M e M" "keplerStep M e M \<le> pi"
proof -
  define u where "u = (pi - M) / 2"
  have u: "0 \<le> u" "u \<le> pi / 2" using M by (simp_all add: u_def)
  have Mu: "M = pi - 2 * u" by (simp add: u_def field_simps)
  have e1: "e < 1" using e by simp
  have pos: "0 < 1 - e * cos M" by (rule kepler_denominator_pos [OF e(1) e1])
  have sM: "sin M = 2 * sin u * cos u" unfolding Mu by (simp add: sin_double)
  have cM: "cos M = 1 - 2 * (cos u)\<^sup>2" unfolding Mu by (simp add: cos_double_cos)
  have s0: "0 \<le> sin u" by (rule sin_ge_zero) (use u pi_ge_two in simp_all)
  have c0: "0 \<le> cos u" by (rule cos_ge_zero) (use u in simp_all)
  have su: "sin u \<le> u" by (rule sin_x_le_x [OF u(1)])
  have cq: "1 - u\<^sup>2 / 2 \<le> cos u" using cos_minus_one_bound [of u] by linarith
  have h: "e * sin u * cos u \<le> u * (1 - e + 2 * e * (cos u)\<^sup>2)"
    by (rule first_step_algebra [OF e s0 _ su c0 _ cq u(1)]) simp_all
  have pm: "pi - M = 2 * u" by (simp add: u_def)
  have l: "e * (2 * sin u * cos u) = 2 * (e * sin u * cos u)" by simp
  have r: "2 * u * (1 - e * (1 - 2 * (cos u)\<^sup>2)) = 2 * (u * (1 - e + 2 * e * (cos u)\<^sup>2))"
    by (simp add: algebra_simps)
  have "e * sin M \<le> (pi - M) * (1 - e * cos M)"
    unfolding sM cM pm l r using h by simp
  then have "e * sin M / (1 - e * cos M) \<le> pi - M"
    using pos by (simp add: field_simps)
  then show "keplerStep M e M \<le> pi" by (simp add: keplerStep_def keplerDelta_def)
  have "0 \<le> e * sin M" using e s0 c0 unfolding sM by simp
  then show "0 \<le> keplerDelta M e M" using pos by (simp add: keplerDelta_def)
qed

lemma lower_half_reaches_tolerance:
  fixes M e tol :: real
  assumes e: "0 \<le> e" "e \<le> 9 / 10" and M: "0 \<le> M" "M \<le> pi" and tol: "0 < tol"
  shows "\<exists>n. \<bar>keplerDelta M e ((keplerStep M e ^^ n) M)\<bar> \<le> tol"
proof -
  have e1: "e < 1" using e by simp
  note f = first_step_below_pi [OF e M]
  have lo: "0 \<le> keplerStep M e M" using f(1) M by (simp add: keplerStep_def)
  have g: "0 \<le> keplerStep M e M - e * sin (keplerStep M e M) - M"
    by (rule newton_overshoot [OF e(1) e1 M lo f(2)])
  obtain k where "pi < real k * tol" using reals_Archimedean3 [OF tol] by blast
  with f(2) have "keplerStep M e M \<le> real k * tol" by simp
  from descent_reaches_tolerance [OF e(1) e1 M(1) tol lo f(2) g this]
  obtain n where "\<bar>keplerDelta M e ((keplerStep M e ^^ n) (keplerStep M e M))\<bar> \<le> tol"
    by blast
  then have "\<bar>keplerDelta M e ((keplerStep M e ^^ Suc n) M)\<bar> \<le> tol"
    by (simp add: funpow_swap1)
  then show ?thesis by blast
qed

text \<open>The iteration for \<open>2 pi - M\<close> is the mirror image of the iteration for \<open>M\<close>.\<close>

lemma keplerDelta_mirror: "keplerDelta (2 * pi - M) e (2 * pi - E) = - keplerDelta M e E"
proof -
  have "(2 * pi - M - (2 * pi - E) + e * sin (2 * pi - E)) = - (M - E + e * sin E)"
    by simp
  then show ?thesis unfolding keplerDelta_def by (simp only: cos_2pi_minus minus_divide_left)
qed

lemma keplerStep_mirror: "keplerStep (2 * pi - M) e (2 * pi - E) = 2 * pi - keplerStep M e E"
  by (simp add: keplerStep_def keplerDelta_mirror)

lemma keplerStep_funpow_mirror:
  "(keplerStep (2 * pi - M) e ^^ n) (2 * pi - E) = 2 * pi - (keplerStep M e ^^ n) E"
  by (induction n) (simp_all add: keplerStep_mirror)

lemma some_iterate_reaches_tolerance:
  fixes M e tol :: real
  assumes e: "0 \<le> e" "e \<le> 9 / 10" and M: "0 \<le> M" "M < 2 * pi" and tol: "0 < tol"
  shows "\<exists>n. \<bar>keplerDelta M e ((keplerStep M e ^^ n) M)\<bar> \<le> tol"
proof (cases "M \<le> pi")
  case True
  then show ?thesis by (intro lower_half_reaches_tolerance assms)
next
  case False
  define M' where "M' = 2 * pi - M"
  have M': "0 \<le> M'" "M' \<le> pi" using False M by (simp_all add: M'_def)
  have Meq: "M = 2 * pi - M'" by (simp add: M'_def)
  obtain n where n: "\<bar>keplerDelta M' e ((keplerStep M' e ^^ n) M')\<bar> \<le> tol"
    using lower_half_reaches_tolerance [OF e M' tol] by blast
  have "keplerDelta M e ((keplerStep M e ^^ n) M) = - keplerDelta M' e ((keplerStep M' e ^^ n) M')"
    unfolding Meq keplerStep_funpow_mirror keplerDelta_mirror by simp
  with n have "\<bar>keplerDelta M e ((keplerStep M e ^^ n) M)\<bar> \<le> tol" by simp
  then show ?thesis by blast
qed

text \<open>
  C3. For every mean anomaly \<open>M\<close> in \<open>[0, 2 pi)\<close> and every eccentricity \<open>e\<close> in
  \<open>[0, 0.9]\<close>, \<open>solveKepler\<close> with the default tolerance returns an eccentric anomaly
  \<open>E\<close>, and it satisfies \<open>|(E - e sin E) - M| \<le> 1e-8\<close>.
\<close>

theorem kepler_solution_within_tolerance:
  assumes "0 \<le> M" "M < 2 * pi" "0 \<le> e" "e \<le> 9 / 10"
  shows "\<exists>E. solveKepler (Fin M) (Fin e) defaultTolerance = Some (Fin E)
             \<and> \<bar>(E - e * sin E) - M\<bar> \<le> 1 / 10 ^ 8"
proof -
  have e1: "e < 1" using assms(4) by simp
  obtain n where "\<bar>keplerDelta M e ((keplerStep M e ^^ n) M)\<bar> \<le> 1 / 10 ^ 8"
    using some_iterate_reaches_tolerance [OF assms(3,4,1,2), of "1 / 10 ^ 8"] by auto
  from loop_returns_when_delta_small [OF assms(3) e1 this]
  obtain y where y: "solveKepler_loop (Fin M) (Fin e) (Fin (1 / 10 ^ 8)) (Fin M) = Some y"
    by blast
  from solveKepler_loop_residual [OF this, rule_format, of M e "1 / 10 ^ 8" M] assms(3) e1
  obtain E where E: "y = Fin E" and r: "\<bar>E - e * sin E - M\<bar> \<le> e * (1 / 10 ^ 8)\<^sup>2"
    by auto
  have "((1::real) / 10 ^ 8)\<^sup>2 \<le> 1 / 10 ^ 8" by (simp add: power2_eq_square)
  then have "e * (1 / 10 ^ 8)\<^sup>2 \<le> 1 * (1 / 10 ^ 8)"
    using assms(3,4) by (intro mult_mono) simp_all
  with r have "\<bar>(E - e * sin E) - M\<bar> \<le> 1 / 10 ^ 8" by linarith
  with y E show ?thesis by (simp add: solveKepler_def defaultTolerance_def)
qed


theorem kepler_solution_within_tolerance_witness:
  "(0::real) \<le> 1 \<and> (1::real) < 2 * pi \<and> (0::real) \<le> 9 / 10 \<and> (9 / 10 :: real) \<le> 9 / 10
   \<and> (\<exists>E. solveKepler (Fin 1) (Fin (9 / 10)) defaultTolerance = Some (Fin E)
          \<and> \<bar>(E - 9 / 10 * sin E) - 1\<bar> \<le> 1 / 10 ^ 8 \<and> E \<noteq> 1)"
proof -
  have h: "(1::real) < 2 * pi" using pi_ge_two by simp
  obtain E where E: "solveKepler (Fin 1) (Fin (9 / 10)) defaultTolerance = Some (Fin E)"
      "\<bar>(E - 9 / 10 * sin E) - 1\<bar> \<le> 1 / 10 ^ 8"
    using kepler_solution_within_tolerance [of 1 "9 / 10"] h by auto
  have "5 / 6 \<le> sin (1::real)" using sin_cubic_lower [of 1] by simp
  then have "E \<noteq> 1" using E(2) by auto
  with E h show ?thesis by auto
qed

end
